theory Spec2Isabelle
  imports Main "HOL-Library.Word"
begin

section \<open>Byte strings and integers\<close>

text \<open>
  A Node.js \<open>Buffer\<close> is a list of bytes. The translation of a raw transaction
  (\<open>Iotx.sendRawTransaction\<close> in \<open>src/iotx.ts\<close>) reads buffers as big-endian unsigned
  integers and writes integers back as buffers.
\<close>

type_synonym byte = "8 word"
type_synonym bytes = "byte list"

text \<open>The unsigned big-endian value of a buffer; the empty buffer is 0.\<close>

definition be_int :: "bytes \<Rightarrow> int" where
  "be_int bs = foldl (\<lambda>a b. a * 256 + uint b) 0 bs"

text \<open>The shortest big-endian buffer of a number; no byte at all for 0.\<close>

function be_bytes :: "nat \<Rightarrow> bytes" where
  "be_bytes n = (if n = 0 then [] else be_bytes (n div 256) @ [of_nat (n mod 256)])"
  by pat_completeness auto
termination
  by (relation "measure id") auto

declare be_bytes.simps [simp del]

text \<open>
  \<open>toBuffer\<close> of ethereumjs-util on a number (\<open>intToBuffer\<close>): the hexadecimal digits of the
  number, padded to an even count, as bytes. Zero has the digit \<open>0\<close>, so it is the one byte
  \<open>00\<close> and not the empty buffer.
\<close>

definition intToBuffer :: "nat \<Rightarrow> bytes" where
  "intToBuffer i = (if i = 0 then [0] else be_bytes i)"

text \<open>\<open>unpadBuffer\<close>: leading zero bytes are removed.\<close>

definition unpadBuffer :: "bytes \<Rightarrow> bytes" where
  "unpadBuffer a = dropWhile (\<lambda>b. b = 0) a"

text \<open>
  \<open>setLengthLeft(msg, length)\<close> of ethereumjs-util, which its \<open>ecrecover\<close> applies to \<open>r\<close>
  and \<open>s\<close>: a shorter buffer is padded on the left with zero bytes, a longer one keeps its
  last \<open>length\<close> bytes.
\<close>

definition setLengthLeft :: "bytes \<Rightarrow> nat \<Rightarrow> bytes" where
  "setLengthLeft msg len =
     (if length msg < len then replicate (len - length msg) 0 @ msg
      else drop (length msg - len) msg)"

section \<open>The tuple encoding (RLP)\<close>

text \<open>
  \<open>rlp.decode\<close> returns a buffer or an array of decoded items; \<open>rlp.encode\<close> takes the
  same shape.
\<close>

datatype rlp_item = Buf bytes | Arr "rlp_item list"

text \<open>
  \<open>encodeLength(len, offset)\<close>: one byte below 56, otherwise the byte count of the length
  followed by the length itself.
\<close>

definition encodeLength :: "nat \<Rightarrow> nat \<Rightarrow> bytes" where
  "encodeLength len offset =
     (if len < 56 then [of_nat (len + offset)]
      else of_nat (offset + 55 + length (be_bytes len)) # be_bytes len)"

fun rlp_encode :: "rlp_item \<Rightarrow> bytes" where
  "rlp_encode (Buf b) =
     (if length b = 1 \<and> unat (hd b) < 128 then b
      else encodeLength (length b) 128 @ b)"
| "rlp_encode (Arr xs) =
     (let buf = concat (map rlp_encode xs)
      in encodeLength (length buf) 192 @ buf)"

text \<open>
  \<open>_decode\<close> of the rlp package (release 2.2): the first item of the input and the bytes
  after it. The branches follow the package, with its checks and without the checks it
  does not make:
  \<^item> a short string takes the bytes that are there, also when they are fewer than its
    length says; a single byte below 128 written with a length byte is refused;
  \<^item> a long string needs its length bytes and one byte more, no leading zero byte in
    the length (\<open>safeParseInt\<close>), a length above 55 and all of its bytes;
  \<^item> a short list decodes the bytes that are there, also when they are fewer than its
    length says;
  \<^item> a long list needs no leading zero byte in its length, a total length within the
    input and at least one byte of content; a length below 56 is not refused.
  The recursion of the package runs on ever shorter buffers; here the first argument
  bounds its depth, and \<open>rlp_decode\<close> below starts it with the length of the input, which
  is always enough (\<open>decode_bound_enough\<close>).
\<close>

fun decode_item :: "nat \<Rightarrow> bytes \<Rightarrow> (rlp_item \<times> bytes) option"
  and decode_items :: "nat \<Rightarrow> bytes \<Rightarrow> rlp_item list option" where
  "decode_item 0 input = None"
| "decode_item (Suc n) [] = None"
| "decode_item (Suc n) (b # rest) =
     (let firstByte = unat b in
      if firstByte \<le> 127 then Some (Buf [b], rest)
      else if firstByte \<le> 183 then
        (let len = firstByte - 128; data = take len rest in
         if len = 1 \<and> data \<noteq> [] \<and> unat (hd data) < 128 then None
         else Some (Buf data, drop len rest))
      else if firstByte \<le> 191 then
        (let ll = firstByte - 183 in
         if length rest < ll + 1 then None
         else if unat (hd rest) = 0 then None
         else
           (let len = nat (be_int (take ll rest)) in
            if len \<le> 55 then None
            else if length (drop ll rest) < len then None
            else Some (Buf (take len (drop ll rest)), drop len (drop ll rest))))
      else if firstByte \<le> 247 then
        (let len = firstByte - 192 in
         (case decode_items n (take len rest) of
            None \<Rightarrow> None
          | Some xs \<Rightarrow> Some (Arr xs, drop len rest)))
      else
        (let ll = firstByte - 247 in
         if rest = [] then None
         else if unat (hd rest) = 0 then None
         else
           (let len = nat (be_int (take ll rest)) in
            if length rest < ll + len then None
            else if len = 0 then None
            else (case decode_items n (take len (drop ll rest)) of
                    None \<Rightarrow> None
                  | Some xs \<Rightarrow> Some (Arr xs, drop len (drop ll rest))))))"
| "decode_items n [] = Some []"
| "decode_items 0 (b # rest) = None"
| "decode_items (Suc n) (b # rest) =
     (case decode_item (Suc n) (b # rest) of
        None \<Rightarrow> None
      | Some (x, remainder) \<Rightarrow>
          (case decode_items n remainder of
             None \<Rightarrow> None
           | Some xs \<Rightarrow> Some (x # xs)))"

text \<open>
  \<open>rlp.decode(input)\<close>: an empty input is returned as the empty buffer; otherwise the input
  has to be one item with nothing after it (\<open>invalid remainder\<close>).
\<close>

datatype error =
    RlpError                 \<comment> \<open>thrown by \<open>rlp.decode\<close>\<close>
  | TypeError                \<comment> \<open>a property of \<open>undefined\<close> is read\<close>
  | NotCallable              \<comment> \<open>a TypeError as well: \<open>setLength is not a function\<close>\<close>
  | RangeError               \<comment> \<open>\<open>toString("hex")\<close> of a number\<close>
  | NestedList               \<comment> \<open>a numeric field that is itself a list, see \<open>field\<close>\<close>
  | AddressError             \<comment> \<open>thrown by \<open>fromBytes\<close>\<close>
  | AssertionError           \<comment> \<open>\<open>bufferToInt\<close> beyond 53 bits, \<open>toBuffer\<close> of a bad number\<close>
  | RecoverError             \<comment> \<open>thrown by \<open>ecrecover\<close>\<close>
  | AccountInfoError string  \<comment> \<open>\<open>can't fetch ${to} account info\<close>\<close>
  | RpcError string          \<comment> \<open>an error of the transport, from \<open>getAccount\<close> or \<open>sendAction\<close>\<close>

definition rlp_decode :: "bytes \<Rightarrow> error + rlp_item" where
  "rlp_decode input =
     (if input = [] then Inr (Buf [])
      else (case decode_item (length input) input of
              None \<Rightarrow> Inl RlpError
            | Some (d, remainder) \<Rightarrow> if remainder \<noteq> [] then Inl RlpError else Inr d))"

section \<open>Numbers of bignumber.js\<close>

text \<open>
  The fields are read as \<open>new BigNumber(`0x${buf.toString("hex")}`)\<close>. The hexadecimal
  text of a non-empty buffer is its big-endian value. The empty buffer gives the text
  \<open>0x\<close>, which is not a number: the result is \<open>NaN\<close>.
\<close>

datatype bignumber = NaN | Num int

definition bigNumberOfHex :: "bytes \<Rightarrow> bignumber" where
  "bigNumberOfHex buf = (if buf = [] then NaN else Num (be_int buf))"

definition minus_bn :: "bignumber \<Rightarrow> int \<Rightarrow> bignumber" where
  "minus_bn x k = (case x of NaN \<Rightarrow> NaN | Num i \<Rightarrow> Num (i - k))"

text \<open>The decimal digits of a number that is not negative.\<close>

function decimal :: "int \<Rightarrow> string" where
  "decimal n =
     (if n < 10 then [''0123456789'' ! nat n]
      else decimal (n div 10) @ [''0123456789'' ! nat (n mod 10)])"
  by pat_completeness auto
termination
  by (relation "measure nat") auto

declare decimal.simps [simp del]

text \<open>
  \<open>toString()\<close> with the default configuration of bignumber.js
  (\<open>EXPONENTIAL_AT = [-7, 20]\<close>): plain digits below \<open>10^21\<close>, exponential notation from
  there on (\<open>1e+21\<close>, \<open>1.5e+21\<close>), \<open>NaN\<close> for no number.
\<close>

definition stripZeros :: "string \<Rightarrow> string" where
  "stripZeros ds = rev (dropWhile (\<lambda>c. c = CHR ''0'') (rev ds))"

definition toExponential :: "int \<Rightarrow> string" where
  "toExponential n =
     (let ds = decimal n; c = stripZeros ds
      in hd c # (if tl c = [] then [] else ''.'' @ tl c) @ ''e+'' @ decimal (int (length ds - 1)))"

definition toString :: "bignumber \<Rightarrow> string" where
  "toString x =
     (case x of
        NaN \<Rightarrow> ''NaN''
      | Num i \<Rightarrow>
          (if i < 0 then ''-'' else [])
          @ (if \<bar>i\<bar> < 10 ^ 21 then decimal \<bar>i\<bar> else toExponential \<bar>i\<bar>))"

text \<open>
  \<open>toBuffer(v.toNumber())\<close>: the buffer of a whole number from 0 to \<open>2^53 - 1\<close>; \<open>NaN\<close>,
  negative numbers and numbers that are no safe integers are refused.
\<close>

definition toBufferOfNumber :: "bignumber \<Rightarrow> error + bytes" where
  "toBufferOfNumber x =
     (case x of
        NaN \<Rightarrow> Inl AssertionError
      | Num i \<Rightarrow>
          if i < 0 \<or> 2 ^ 53 \<le> i then Inl AssertionError else Inr (intToBuffer (nat i)))"

text \<open>
  \<open>bufferToInt(buf)\<close> is \<open>new BN(buf).toNumber()\<close>, which refuses a value of more than 53
  bits.
\<close>

definition bufferToInt :: "bytes \<Rightarrow> error + int" where
  "bufferToInt buf = (if be_int buf < 2 ^ 53 then Inr (be_int buf) else Inl AssertionError)"

section \<open>Requests, responses and the collaborators\<close>

text \<open>
  \<open>RawTransactionRequest\<close>: the encoded transaction and the chain id. The data are the
  bytes that \<open>rlp.decode\<close> works on (it turns a text with the prefix \<open>0x\<close> into the bytes
  that the text spells). The chain id is a natural number small enough for the arithmetic
  of JavaScript numbers to be exact (below \<open>2^52\<close>).
\<close>

record rawTransactionRequest =
  chainID :: nat
  data :: bytes

text \<open>The response of \<open>getAccount\<close>: the account metadata may be absent.\<close>

record accountMeta =
  isContract :: bool

record getAccountResponse =
  accountMeta :: "accountMeta option"

text \<open>
  The request handed to \<open>sendAction\<close>. The code attaches \<open>transfer\<close> or \<open>execution\<close> to
  the core after building it, so both are optional fields here. The call data are
  \<open>tx[5]\<close> as decoded: a buffer, a list, or \<open>undefined\<close>.
\<close>

record transfer =
  amount :: string
  recipient :: string
  payload :: "rlp_item option"

record execution =
  amount :: string
  contract :: string
  data :: "rlp_item option"

record core =
  version :: nat
  nonce :: string
  gasLimit :: string
  gasPrice :: string
  chainID :: nat
  transfer :: "transfer option"
  execution :: "execution option"

record action =
  core :: core
  senderPubKey :: bytes
  signature :: bytes
  encoding :: nat

record sendActionRequest =
  action :: action

text \<open>
  What the function calls outside itself and outside the packages modelled above:
  \<^item> \<open>fromBytes(b).string()\<close> of \<open>./crypto/address\<close>, the address text of the recipient
    bytes, which may throw;
  \<^item> \<open>keccakFromHexString\<close>, the hash of the re-encoded bytes;
  \<^item> the secp256k1 recovery inside \<open>ecrecover\<close>: from the 64 signature bytes, the
    recovery id and the hash to the 64 bytes of the public key, when there is one;
  \<^item> \<open>getAccount\<close> and \<open>sendAction\<close> of the RPC client (\<open>sendAction\<close> answers with the
    action hash).
\<close>

record env =
  fromBytes :: "bytes \<Rightarrow> error + string"
  keccak :: "bytes \<Rightarrow> bytes"
  ecdsaRecover :: "bytes \<Rightarrow> int \<Rightarrow> bytes \<Rightarrow> bytes option"
  getAccount :: "string \<Rightarrow> error + getAccountResponse"
  sendAction :: "sendActionRequest \<Rightarrow> error + string"

text \<open>The calls made to the RPC client, in the order they are made.\<close>

datatype call = GetAccount string | SendAction sendActionRequest

section \<open>Public key recovery of ethereumjs-util\<close>

text \<open>
  \<open>ecrecover(msgHash, v, r, s, chainId)\<close> of ethereumjs-util 7.1. \<open>r\<close> and \<open>s\<close> have to be
  buffers and are set to 32 bytes each. The recovery id is \<open>v\<close> itself when \<open>v\<close> is 0 or 1,
  otherwise \<open>v - (2 * chainId + 35)\<close> when a chain id is given (0 counts as none) and
  \<open>v - 27\<close> when none is; it has to be 0 or 1 (\<open>Invalid signature v value\<close>). Every error
  thrown inside the call is \<open>RecoverError\<close> here.
\<close>

definition calculateSigRecovery :: "int \<Rightarrow> nat \<Rightarrow> int" where
  "calculateSigRecovery v chainId =
     (if v = 0 \<or> v = 1 then v
      else if chainId \<noteq> 0 then v - (2 * int chainId + 35) else v - 27)"

definition isValidSigRecovery :: "int \<Rightarrow> bool" where
  "isValidSigRecovery recovery \<longleftrightarrow> recovery = 0 \<or> recovery = 1"

definition ecrecover ::
  "env \<Rightarrow> bytes \<Rightarrow> int \<Rightarrow> rlp_item option \<Rightarrow> rlp_item option \<Rightarrow> nat \<Rightarrow> error + bytes" where
  "ecrecover E msgHash v r s chainId =
     (case r of
        Some (Buf r') \<Rightarrow>
          (case s of
             Some (Buf s') \<Rightarrow>
               (let signature = setLengthLeft r' 32 @ setLengthLeft s' 32;
                    recovery = calculateSigRecovery v chainId
                in if \<not> isValidSigRecovery recovery then Inl RecoverError
                   else (case ecdsaRecover E signature recovery msgHash of
                           None \<Rightarrow> Inl RecoverError
                         | Some publicKey \<Rightarrow> Inr publicKey))
           | _ \<Rightarrow> Inl RecoverError)
      | _ \<Rightarrow> Inl RecoverError)"

section \<open>sendRawTransaction\<close>

text \<open>Sequencing of steps that may throw.\<close>

definition bind :: "error + 'a \<Rightarrow> ('a \<Rightarrow> error + 'b) \<Rightarrow> error + 'b" where
  "bind m f = (case m of Inl e \<Rightarrow> Inl e | Inr x \<Rightarrow> f x)"

text \<open>
  \<open>tx[i]\<close> where the code calls a method of it or reads its length. An index beyond the
  end gives \<open>undefined\<close>, and reading a property of \<open>undefined\<close> throws. When the input
  decoded to one buffer instead of a tuple, the first read of the code, \<open>tx[0]\<close>, decides:
  it is a number, and \<open>toString("hex")\<close> of a number throws. A numeric field that is a
  list again is where this model stops: the code would go on with the text that
  JavaScript makes of an array, and \<open>NestedList\<close> stands for that unmodelled continuation.
\<close>

definition field :: "rlp_item \<Rightarrow> nat \<Rightarrow> error + bytes" where
  "field tx i =
     (case tx of
        Buf b \<Rightarrow> if i < length b then Inl RangeError else Inl TypeError
      | Arr xs \<Rightarrow>
          if i < length xs then
            (case xs ! i of Buf b \<Rightarrow> Inr b | Arr ys \<Rightarrow> Inl NestedList)
          else Inl TypeError)"

text \<open>
  \<open>tx[i]\<close> where the value is only passed on: \<open>tx[5]\<close>, the call data, and \<open>tx[7]\<close> and
  \<open>tx[8]\<close>, the arguments of \<open>ecrecover\<close> and \<open>setLength\<close>. Beyond the end it is
  \<open>undefined\<close>. (For an input that decoded to one buffer the code has thrown before.)
\<close>

definition item :: "rlp_item \<Rightarrow> nat \<Rightarrow> rlp_item option" where
  "item tx i =
     (case tx of
        Buf b \<Rightarrow> None
      | Arr xs \<Rightarrow> if i < length xs then Some (xs ! i) else None)"

text \<open>\<open>tx.slice(0, 6)\<close>.\<close>

definition slice6 :: "rlp_item \<Rightarrow> rlp_item list" where
  "slice6 tx = (case tx of Buf b \<Rightarrow> [] | Arr xs \<Rightarrow> take 6 xs)"

text \<open>
  Lines 95 to 102: the fields read from the decoded tuple. \<open>data\<close> is \<open>tx[5]\<close> as it is,
  and \<open>v\<close> is lowered by \<open>chainID * 2 + 8\<close>.
\<close>

record fields =
  nonce :: bignumber
  gasPrice :: bignumber
  gasLimit :: bignumber
  to :: string
  "value" :: bignumber
  data :: "rlp_item option"
  v :: bignumber

definition readFields :: "env \<Rightarrow> rawTransactionRequest \<Rightarrow> rlp_item \<Rightarrow> error + fields" where
  "readFields E req tx =
     bind (field tx 0) (\<lambda>tx0.
     bind (field tx 1) (\<lambda>tx1.
     bind (field tx 2) (\<lambda>tx2.
     bind (field tx 3) (\<lambda>tx3.
     bind (if length tx3 > 0 then fromBytes E tx3 else Inr []) (\<lambda>to'.
     bind (field tx 4) (\<lambda>tx4.
     bind (field tx 6) (\<lambda>tx6.
       Inr \<lparr> fields.nonce = bigNumberOfHex tx0,
             fields.gasPrice = bigNumberOfHex tx1,
             fields.gasLimit = bigNumberOfHex tx2,
             to = to',
             value = bigNumberOfHex tx4,
             fields.data = item tx 5,
             v = minus_bn (bigNumberOfHex tx6)
                   (int (rawTransactionRequest.chainID req) * 2 + 8) \<rparr>)))))))"

text \<open>
  Lines 104 to 107: the tuple that is hashed, the first six fields followed by the chain
  id of the request and two empty buffers, and its encoding.
\<close>

definition pad :: bytes where
  "pad = unpadBuffer (intToBuffer 0)"

definition rawTx :: "rawTransactionRequest \<Rightarrow> rlp_item \<Rightarrow> rlp_item list" where
  "rawTx req tx =
     slice6 tx @ [Buf (intToBuffer (rawTransactionRequest.chainID req)), Buf pad, Buf pad]"

definition raw :: "rawTransactionRequest \<Rightarrow> rlp_item \<Rightarrow> bytes" where
  "raw req tx = rlp_encode (Arr (rawTx req tx))"

text \<open>
  Lines 108 to 111: the hash of these bytes, and the public key that \<open>ecrecover\<close> finds
  for the hash, the raw \<open>v\<close> of the tuple, \<open>tx[7]\<close>, \<open>tx[8]\<close> and the chain id.
\<close>

definition recoverPublicKey :: "env \<Rightarrow> rawTransactionRequest \<Rightarrow> rlp_item \<Rightarrow> error + bytes" where
  "recoverPublicKey E req tx =
     (let hash = keccak E (raw req tx) in
      bind (field tx 6) (\<lambda>tx6.
      bind (bufferToInt tx6) (\<lambda>vv.
        ecrecover E hash vv (item tx 7) (item tx 8) (rawTransactionRequest.chainID req))))"

text \<open>
  The name \<open>setLength\<close> that line 23 imports from ethereumjs-util is not among the exports
  of the releases that have \<open>keccakFromHexString\<close> and \<open>unpadBuffer\<close> (they export
  \<open>setLengthLeft\<close> and \<open>setLengthRight\<close>). The imported binding is \<open>undefined\<close>, and the
  call of it in line 113 throws a TypeError whatever its arguments are.
\<close>

definition setLength :: "rlp_item option \<Rightarrow> nat \<Rightarrow> error + bytes" where
  "setLength msg len = Inl NotCallable"

text \<open>
  Lines 112 and 113: the public key with the marker byte 4 in front, and the signature
  \<open>r\<close>, \<open>s\<close>, \<open>v\<close>, whose first part is the call of \<open>setLength\<close>.
\<close>

definition recoverIdentity ::
  "env \<Rightarrow> rawTransactionRequest \<Rightarrow> rlp_item \<Rightarrow> bignumber \<Rightarrow> error + bytes \<times> bytes" where
  "recoverIdentity E req tx v' =
     bind (recoverPublicKey E req tx) (\<lambda>publicKey.
       (let compactPublicKey = intToBuffer 4 @ publicKey in
        bind (setLength (item tx 7) 32) (\<lambda>r.
        bind (setLength (item tx 8) 32) (\<lambda>s.
        bind (toBufferOfNumber v') (\<lambda>vb.
          Inr (compactPublicKey, r @ s @ vb))))))"

text \<open>
  Lines 115 to 124: a recipient is looked up, and a response without account metadata
  is an error; without a recipient nothing is looked up and \<open>isContract\<close> stays true.
\<close>

definition classify :: "env \<Rightarrow> string \<Rightarrow> (error + bool) \<times> call list" where
  "classify E to' =
     (if to' \<noteq> [] then
        (case getAccount E to' of
           Inl e \<Rightarrow> (Inl e, [GetAccount to'])
         | Inr account \<Rightarrow>
             (case accountMeta account of
                None \<Rightarrow> (Inl (AccountInfoError to'), [GetAccount to'])
              | Some meta \<Rightarrow> (Inr (isContract meta), [GetAccount to'])))
      else (Inr True, []))"

text \<open>Lines 126 to 155: the request, and the one of the two payloads attached to it.\<close>

definition sendActionReq :: "fields \<Rightarrow> bytes \<Rightarrow> bytes \<Rightarrow> bool \<Rightarrow> sendActionRequest" where
  "sendActionReq f compactPublicKey signature' isContract' =
     (let req0 =
        \<lparr> action =
            \<lparr> core =
                \<lparr> version = 0,
                  core.nonce = toString (fields.nonce f),
                  core.gasLimit = toString (fields.gasLimit f),
                  core.gasPrice = toString (fields.gasPrice f),
                  core.chainID = 0,
                  transfer = None,
                  execution = None \<rparr>,
              senderPubKey = compactPublicKey,
              signature = signature',
              encoding = 1 \<rparr> \<rparr>
      in if \<not> isContract' then
           req0 \<lparr> action := (action req0) \<lparr> core := (core (action req0))
             \<lparr> transfer := Some \<lparr> transfer.amount = toString (value f),
                                   recipient = to f,
                                   payload = fields.data f \<rparr> \<rparr> \<rparr> \<rparr>
         else
           req0 \<lparr> action := (action req0) \<lparr> core := (core (action req0))
             \<lparr> execution := Some \<lparr> execution.amount = toString (value f),
                                    contract = to f,
                                    execution.data = fields.data f \<rparr> \<rparr> \<rparr> \<rparr>)"

text \<open>
  The whole function: the result, or the error it throws, together with the calls it made
  to the RPC client. Line 157 hands the request to \<open>sendAction\<close> and returns the action
  hash.
\<close>

definition sendRawTransaction ::
  "env \<Rightarrow> rawTransactionRequest \<Rightarrow> (error + string) \<times> call list" where
  "sendRawTransaction E req =
     (case rlp_decode (rawTransactionRequest.data req) of
        Inl e \<Rightarrow> (Inl e, [])
      | Inr tx \<Rightarrow>
     (case readFields E req tx of
        Inl e \<Rightarrow> (Inl e, [])
      | Inr f \<Rightarrow>
     (case recoverIdentity E req tx (v f) of
        Inl e \<Rightarrow> (Inl e, [])
      | Inr (compactPublicKey, signature') \<Rightarrow>
     (case classify E (to f) of
        (Inl e, calls) \<Rightarrow> (Inl e, calls)
      | (Inr isContract', calls) \<Rightarrow>
          (let r = sendActionReq f compactPublicKey signature' isContract'
           in case sendAction E r of
                Inl e \<Rightarrow> (Inl e, calls @ [SendAction r])
              | Inr actionHash \<Rightarrow> (Inr actionHash, calls @ [SendAction r]))))))"

section \<open>Concrete runs\<close>

text \<open>
  A transfer of \<open>10^18\<close> to the recipient of 20 bytes \<open>35\<close>, with nonce 1, gas price \<open>10^12\<close>,
  gas limit 21000 and no call data, signed for the chain id 4689 with the private key of
  32 bytes \<open>46\<close>. The signature has the recovery id 1, so \<open>v = 2 * 4689 + 35 + 1\<close>.
\<close>

definition signedR :: bytes where
  "signedR =
     [0xac, 0x4f, 0x0b, 0x6e, 0xb5, 0x7e, 0x55, 0x50, 0xef, 0xfa, 0x6e, 0x28,
      0x52, 0x11, 0xeb, 0x1a, 0xe0, 0xae, 0x6a, 0xd5, 0x27, 0x88, 0x4e, 0xd3,
      0x6d, 0xd2, 0xc5, 0x94, 0x56, 0x3f, 0x23, 0xf3]"

definition signedS :: bytes where
  "signedS =
     [0x33, 0xbd, 0x4b, 0x83, 0x7e, 0xe8, 0x2a, 0x3f, 0x34, 0x1b, 0x89, 0x61,
      0x7e, 0xc2, 0xfc, 0x4b, 0xbd, 0xd8, 0xc2, 0xab, 0x7d, 0x62, 0xe0, 0x4f,
      0x66, 0x4e, 0xed, 0x3f, 0x3d, 0x1f, 0x80, 0x7f]"

definition signedFields :: "bytes list" where
  "signedFields =
     [[0x01], [0xe8, 0xd4, 0xa5, 0x10, 0x00], [0x52, 0x08], replicate 20 0x35,
      [0x0d, 0xe0, 0xb6, 0xb3, 0xa7, 0x64, 0x00, 0x00], [], [0x24, 0xc6],
      signedR, signedS]"

text \<open>
  The bytes that the code hashes for this transfer (the re-encoded tuple with the chain
  id \<open>12 51\<close> in the seventh place), their Keccak-256 hash, the public key of the signer,
  and the address text of the recipient.
\<close>

definition signedRaw :: bytes where
  "signedRaw =
     [0xee, 0x01, 0x85, 0xe8, 0xd4, 0xa5, 0x10, 0x00, 0x82, 0x52, 0x08, 0x94,
      0x35, 0x35, 0x35, 0x35, 0x35, 0x35, 0x35, 0x35, 0x35, 0x35, 0x35, 0x35,
      0x35, 0x35, 0x35, 0x35, 0x35, 0x35, 0x35, 0x35, 0x88, 0x0d, 0xe0, 0xb6,
      0xb3, 0xa7, 0x64, 0x00, 0x00, 0x80, 0x82, 0x12, 0x51, 0x80, 0x80]"

definition signedHash :: bytes where
  "signedHash =
     [0xed, 0x2c, 0xb1, 0x9d, 0x02, 0x07, 0x47, 0x88, 0x5d, 0x3b, 0x9a, 0x6f,
      0x9b, 0x4f, 0x15, 0x15, 0xaf, 0xd5, 0x04, 0x1b, 0x45, 0x6e, 0x77, 0xa2,
      0xf1, 0xbc, 0x81, 0xc0, 0x8c, 0xe5, 0x54, 0x60]"

definition signedKey :: bytes where
  "signedKey =
     [0x4b, 0xc2, 0xa3, 0x12, 0x65, 0x15, 0x3f, 0x07, 0xe7, 0x0e, 0x0b, 0xab,
      0x08, 0x72, 0x4e, 0x6b, 0x85, 0xe2, 0x17, 0xf8, 0xcd, 0x62, 0x8c, 0xeb,
      0x62, 0x97, 0x42, 0x47, 0xbb, 0x49, 0x33, 0x82, 0xce, 0x28, 0xca, 0xb7,
      0x9a, 0xd7, 0x11, 0x9e, 0xe1, 0xad, 0x3e, 0xbc, 0xdb, 0x98, 0xa1, 0x68,
      0x05, 0x21, 0x15, 0x30, 0xec, 0xc6, 0xcf, 0xef, 0xa1, 0xb8, 0x8e, 0x6d,
      0xff, 0x99, 0x23, 0x2a]"

definition signedAddress :: string where
  "signedAddress = ''io1x56n2df4x56n2df4x56n2df4x56n2df4rvxx75''"

text \<open>
  The same transfer signed without a chain id in \<open>v\<close>, for a request with the chain id 0:
  the seventh field of the hashed tuple is the byte 0, the signature has the recovery id
  0, and \<open>v = 27\<close>.
\<close>

definition zeroChainR :: bytes where
  "zeroChainR =
     [0x07, 0xf9, 0xb9, 0x20, 0xd9, 0x9d, 0xad, 0x5c, 0xde, 0x06, 0x14, 0x51,
      0x07, 0x23, 0x99, 0xef, 0x85, 0x7e, 0x4f, 0xbe, 0x0c, 0x88, 0xd2, 0xf5,
      0xc6, 0xc7, 0xf7, 0x3d, 0x77, 0x60, 0x2d, 0x27]"

definition zeroChainS :: bytes where
  "zeroChainS =
     [0x28, 0x5e, 0xca, 0x48, 0x0a, 0x3b, 0x57, 0x57, 0xab, 0xec, 0x37, 0xc7,
      0x52, 0x59, 0xcd, 0xf6, 0x7b, 0x38, 0x18, 0x3d, 0x14, 0xd4, 0x08, 0xcb,
      0x85, 0x7e, 0xb1, 0x69, 0x64, 0x81, 0xdb, 0xc1]"


definition zeroChainRaw :: bytes where
  "zeroChainRaw =
     [0xec, 0x01, 0x85, 0xe8, 0xd4, 0xa5, 0x10, 0x00, 0x82, 0x52, 0x08, 0x94,
      0x35, 0x35, 0x35, 0x35, 0x35, 0x35, 0x35, 0x35, 0x35, 0x35, 0x35, 0x35,
      0x35, 0x35, 0x35, 0x35, 0x35, 0x35, 0x35, 0x35, 0x88, 0x0d, 0xe0, 0xb6,
      0xb3, 0xa7, 0x64, 0x00, 0x00, 0x80, 0x00, 0x80, 0x80]"

definition zeroChainHash :: bytes where
  "zeroChainHash =
     [0x78, 0xc5, 0xc0, 0xc6, 0x26, 0x86, 0x6c, 0x8d, 0x2f, 0xf9, 0x47, 0x87,
      0x20, 0x50, 0x9f, 0xb8, 0xcf, 0x91, 0x1f, 0xe8, 0xc8, 0xcc, 0x65, 0x49,
      0x56, 0x98, 0xa4, 0xfd, 0x96, 0xd9, 0x62, 0xac]"

text \<open>
  The key that the recovery finds for the first signature when the last byte of \<open>s\<close> is
  missing: another key than that of the signer.
\<close>

definition shortSKey :: bytes where
  "shortSKey =
     [0xf2, 0xb8, 0xa4, 0x3f, 0x1a, 0x78, 0xa1, 0xc9, 0x00, 0x2c, 0x4b, 0x97,
      0x09, 0xf7, 0xfa, 0x56, 0xdd, 0x21, 0x56, 0xdf, 0x77, 0x71, 0x82, 0x77,
      0xab, 0x98, 0xab, 0x05, 0x73, 0x82, 0xe3, 0x38, 0x6b, 0x57, 0x51, 0x56,
      0x36, 0xc1, 0x75, 0xa3, 0x04, 0x9a, 0xcb, 0xc1, 0x06, 0xd0, 0xb0, 0x2a,
      0x97, 0x9a, 0x38, 0xd0, 0xda, 0x0f, 0x7f, 0x16, 0x45, 0xf3, 0x0e, 0x1a,
      0x39, 0xde, 0x48, 0x89]"


definition demoRaw :: bytes where
  "demoRaw =
     [0xec, 0x01, 0x83, 0x0f, 0x42, 0x40, 0x82, 0x52, 0x08, 0x94, 0xab, 0xab,
      0xab, 0xab, 0xab, 0xab, 0xab, 0xab, 0xab, 0xab, 0xab, 0xab, 0xab, 0xab,
      0xab, 0xab, 0xab, 0xab, 0xab, 0xab, 0x88, 0x0d, 0xe0, 0xb6, 0xb3, 0xa7,
      0x64, 0x00, 0x00, 0x80, 0x82, 0x12, 0x51, 0x80, 0x80]"

definition demoHash :: bytes where
  "demoHash =
     [0xda, 0x17, 0xea, 0xcc, 0x90, 0x17, 0x38, 0x2d, 0xcb, 0x56, 0xc0, 0xf1,
      0x97, 0x96, 0xb3, 0xa0, 0x3e, 0x75, 0x1c, 0x0f, 0xa0, 0x02, 0xe8, 0x55,
      0xef, 0x1d, 0xa6, 0x87, 0xb5, 0x85, 0x50, 0xe7]"

definition demoAddress :: string where
  "demoAddress = ''io14w46h2at4w46h2at4w46h2at4w46h2atzulwd7''"

text \<open>
  The collaborators on these transactions. \<open>fromBytes\<close>, \<open>keccak\<close> and \<open>ecdsaRecover\<close> are
  tables of what the real functions give on the values above: the two address texts,
  the three hashes, and the three recoveries (the signature for chain 4689 with the
  recovery id 1, the signature for chain 0 with the recovery id 0, and the first
  signature with \<open>s\<close> cut short and set back to 32 bytes). Outside the tables they answer
  with an error, the empty buffer and no key; the runs below that get as far as one of
  the three functions stay inside the tables. The RPC client knows every account as a
  plain account and accepts every action.
\<close>

definition demoEnv :: env where
  "demoEnv =
     \<lparr> fromBytes = (\<lambda>b. if b = replicate 20 0x35 then Inr signedAddress
                          else if b = replicate 20 0xab then Inr demoAddress
                          else Inl AddressError),
       keccak = (\<lambda>b. if b = signedRaw then signedHash
                       else if b = zeroChainRaw then zeroChainHash
                       else if b = demoRaw then demoHash
                       else []),
       ecdsaRecover = (\<lambda>sig recovery h.
                         if sig = signedR @ signedS \<and> recovery = 1 \<and> h = signedHash
                         then Some signedKey
                         else if sig = zeroChainR @ zeroChainS \<and> recovery = 0 \<and> h = zeroChainHash
                         then Some signedKey
                         else if sig = signedR @ [0] @ butlast signedS \<and> recovery = 1
                                 \<and> h = signedHash
                         then Some shortSKey
                         else None),
       getAccount = (\<lambda>a. Inr \<lparr> accountMeta = Some \<lparr> isContract = False \<rparr> \<rparr>),
       sendAction = (\<lambda>r. Inr ''actionHash'') \<rparr>"



text \<open>The requests: the encoding of a list of byte strings, and the chain id.\<close>

definition encodeTx :: "bytes list \<Rightarrow> bytes" where
  "encodeTx fs = rlp_encode (Arr (map Buf fs))"

definition signedReq :: rawTransactionRequest where
  "signedReq = \<lparr> rawTransactionRequest.chainID = 4689,
                 rawTransactionRequest.data = encodeTx signedFields \<rparr>"


text \<open>The fields that the code reads from the signed transfer.\<close>

definition signedRead :: fields where
  "signedRead =
     \<lparr> fields.nonce = Num 1, fields.gasPrice = Num 1000000000000, fields.gasLimit = Num 21000,
       to = signedAddress, value = Num 1000000000000000000,
       fields.data = Some (Buf []), v = Num 28 \<rparr>"











text \<open>
  Inputs that are not the encoding of nine fields: the signed transfer with a tenth
  field, with its last field left out, with a byte after the encoding, and without the
  last byte of the encoding; and the signed transfer whose field \<open>s\<close> announces 32 bytes
  and has 31, in a list whose length counts the bytes that are there.
\<close>

definition tenFieldReq :: rawTransactionRequest where
  "tenFieldReq = \<lparr> rawTransactionRequest.chainID = 4689,
                   rawTransactionRequest.data = encodeTx (signedFields @ [[0x07]]) \<rparr>"

definition eightFieldReq :: rawTransactionRequest where
  "eightFieldReq = \<lparr> rawTransactionRequest.chainID = 4689,
                     rawTransactionRequest.data = encodeTx (take 8 signedFields) \<rparr>"

definition remainderReq :: rawTransactionRequest where
  "remainderReq = \<lparr> rawTransactionRequest.chainID = 4689,
                    rawTransactionRequest.data = encodeTx signedFields @ [0x00] \<rparr>"

definition cutReq :: rawTransactionRequest where
  "cutReq = \<lparr> rawTransactionRequest.chainID = 4689,
              rawTransactionRequest.data = butlast (encodeTx signedFields) \<rparr>"

definition shortSData :: bytes where
  "shortSData =
     [0xf8, 0x6d]
     @ concat (map (\<lambda>b. rlp_encode (Buf b)) (take 8 signedFields))
     @ [0xa0] @ butlast signedS"

definition shortSReq :: rawTransactionRequest where
  "shortSReq = \<lparr> rawTransactionRequest.chainID = 4689,
                 rawTransactionRequest.data = shortSData \<rparr>"

section \<open>Basic facts\<close>

lemma bind_Inl [simp]: "bind (Inl e) f = Inl e"
  by (simp add: bind_def)

lemma bind_Inr [simp]: "bind (Inr x) f = f x"
  by (simp add: bind_def)


lemma be_int_Nil [simp]: "be_int [] = 0"
  by (simp add: be_int_def)

lemma be_int_append: "be_int (xs @ [b]) = be_int xs * 256 + uint b"
  by (simp add: be_int_def)

lemma uint_byte_of_nat: "uint (of_nat (n mod 256) :: byte) = int (n mod 256)"
  by (simp add: unsigned_of_nat take_bit_eq_mod zmod_int)

lemma be_int_be_bytes: "be_int (be_bytes n) = int n"
proof (induction n rule: be_bytes.induct)
  case (1 n)
  show ?case
  proof (cases "n = 0")
    case True
    then show ?thesis by (simp add: be_bytes.simps be_int_def)
  next
    case False
    have "be_int (be_bytes n) = be_int (be_bytes (n div 256)) * 256 + int (n mod 256)"
      using False by (subst be_bytes.simps) (simp add: be_int_append uint_byte_of_nat)
    also have "\<dots> = int (n div 256) * 256 + int (n mod 256)"
      using 1 False by simp
    also have "\<dots> = int n"
      by (simp add: zdiv_int zmod_int)
    finally show ?thesis .
  qed
qed

lemma be_int_intToBuffer: "be_int (intToBuffer n) = int n"
  by (simp add: intToBuffer_def be_int_be_bytes) (simp add: be_int_def)

lemma field_flat:
  "field (Arr (map Buf fs)) i = (if i < length fs then Inr (fs ! i) else Inl TypeError)"
  by (simp add: field_def)

lemma item_flat:
  "item (Arr (map Buf fs)) i = (if i < length fs then Some (Buf (fs ! i)) else None)"
  by (simp add: item_def)






section \<open>The call of line 113\<close>

text \<open>
  The assembly of the signature starts with the call of \<open>setLength\<close>, which throws. So the
  steps of lines 112 and 113 never yield a signature: once a public key has been
  recovered they end with the TypeError of that call, and otherwise with the error
  of the recovery.
\<close>

lemma recoverIdentity_recovered:
  "recoverPublicKey E req tx = Inr publicKey \<Longrightarrow> recoverIdentity E req tx v' = Inl NotCallable"
  by (simp add: recoverIdentity_def setLength_def Let_def)

lemma recoverIdentity_not_recovered:
  "recoverPublicKey E req tx = Inl e \<Longrightarrow> recoverIdentity E req tx v' = Inl e"
  by (simp add: recoverIdentity_def)

lemma recoverIdentity_throws: "\<exists>e. recoverIdentity E req tx v' = Inl e"
  by (cases "recoverPublicKey E req tx")
     (simp_all add: recoverIdentity_recovered recoverIdentity_not_recovered)

text \<open>
  Therefore no call of \<open>sendRawTransaction\<close> returns, and none gets as far as the lookup
  of line 117 or the submission of line 157: every call throws, and the RPC client has
  not been called when it does.
\<close>

lemma sendRawTransaction_throws: "\<exists>e. sendRawTransaction E req = (Inl e, [])"
proof (cases "rlp_decode (rawTransactionRequest.data req)")
  case (Inl e)
  then show ?thesis
    by (simp add: sendRawTransaction_def)
next
  case tx: (Inr tx)
  show ?thesis
  proof (cases "readFields E req tx")
    case (Inl e)
    with tx show ?thesis
      by (simp add: sendRawTransaction_def)
  next
    case (Inr f)
    from recoverIdentity_throws obtain e where "recoverIdentity E req tx (v f) = Inl e"
      by blast
    with tx Inr show ?thesis
      by (simp add: sendRawTransaction_def)
  qed
qed

lemma sendRawTransaction_recover_fails:
  assumes "rlp_decode (rawTransactionRequest.data req) = Inr tx"
    and "readFields E req tx = Inr f"
    and "recoverPublicKey E req tx = Inl e"
  shows "sendRawTransaction E req = (Inl e, [])"
  using assms by (simp add: sendRawTransaction_def recoverIdentity_not_recovered)

lemma sendRawTransaction_recovered:
  assumes "rlp_decode (rawTransactionRequest.data req) = Inr tx"
    and "readFields E req tx = Inr f"
    and "recoverPublicKey E req tx = Inr publicKey"
  shows "sendRawTransaction E req = (Inl NotCallable, [])"
  using assms by (simp add: sendRawTransaction_def recoverIdentity_recovered)

section \<open>What lines 115 to 157 are written to do\<close>

text \<open>
  The steps after the signature, taken by themselves: the lookup is made for a
  recipient text that is not empty, and a response without metadata is the account-info
  error; the request carries the chain id 0 and exactly one of the two payloads, chosen
  by \<open>isContract\<close>.
\<close>

lemma classify_calls:
  "classify E a = (res, calls) \<Longrightarrow> calls = (if a = [] then [] else [GetAccount a])"
  by (auto simp: classify_def split: if_splits sum.splits option.splits)

lemma classify_no_metadata:
  "a \<noteq> [] \<Longrightarrow> getAccount E a = Inr resp \<Longrightarrow> accountMeta resp = None
     \<Longrightarrow> classify E a = (Inl (AccountInfoError a), [GetAccount a])"
  by (simp add: classify_def)

lemma sendActionReq_chainID: "core.chainID (core (action (sendActionReq f k s c))) = 0"
  by (simp add: sendActionReq_def Let_def)

lemma sendActionReq_payload:
  "transfer (core (action (sendActionReq f k s c)))
     = (if c then None
        else Some \<lparr> transfer.amount = toString (value f), recipient = to f,
                    payload = fields.data f \<rparr>)
   \<and> execution (core (action (sendActionReq f k s c)))
     = (if c then Some \<lparr> execution.amount = toString (value f), contract = to f,
                          execution.data = fields.data f \<rparr>
        else None)"
  by (simp add: sendActionReq_def Let_def)

section \<open>Facts about the recovery step\<close>

lemma if_then_part: "(if P then A \<and> B else C) \<Longrightarrow> P \<Longrightarrow> B"
  by simp

lemma bufferToInt_Inr: "bufferToInt b = Inr n \<longleftrightarrow> be_int b < 2 ^ 53 \<and> n = be_int b"
  by (auto simp: bufferToInt_def)










lemma signed_raw: "raw signedReq (Arr (map Buf signedFields)) = signedRaw"
  by code_simp


section \<open>One chain id for three uses\<close>



section \<open>The recovery indicator\<close>




section \<open>The recovered public key\<close>




section \<open>The signature of the envelope\<close>

text \<open>
  Claim C6. The signed transfer passes the recovery: the hash of the re-encoded tuple,
  the raw \<open>v\<close>, \<open>r\<close> and \<open>s\<close> give the public key of the signer. The assembly of the
  signature in line 113 then calls \<open>setLength\<close> on \<open>r\<close>, which throws: no signature of any
  layout is assembled and no envelope is built, and the call of \<open>sendRawTransaction\<close>
  ends with that error.
\<close>

theorem signature_not_assembled:
  "rlp_decode (rawTransactionRequest.data signedReq) = Inr (Arr (map Buf signedFields))
   \<and> readFields demoEnv signedReq (Arr (map Buf signedFields)) = Inr signedRead
   \<and> recoverPublicKey demoEnv signedReq (Arr (map Buf signedFields)) = Inr signedKey
   \<and> item (Arr (map Buf signedFields)) 7 = Some (Buf signedR)
   \<and> setLength (Some (Buf signedR)) 32 = Inl NotCallable
   \<and> recoverIdentity demoEnv signedReq (Arr (map Buf signedFields)) (v signedRead)
       = Inl NotCallable
   \<and> sendRawTransaction demoEnv signedReq = (Inl NotCallable, [])"
  by code_simp

section \<open>The payload of the envelope\<close>


section \<open>Classification\<close>


section \<open>The two chain id fields\<close>


section \<open>The calls to the RPC client\<close>

text \<open>
  Claim C9. The signed transfer is a valid raw transaction with a recipient: it decodes,
  its fields are read, and the key of its signer is recovered. The call makes no lookup
  and no submission: it ends with the error of line 113 and an empty list of calls to
  the RPC client.
\<close>

theorem no_lookup_no_submission:
  "rlp_decode (rawTransactionRequest.data signedReq) = Inr (Arr (map Buf signedFields))
   \<and> readFields demoEnv signedReq (Arr (map Buf signedFields)) = Inr signedRead
   \<and> signedFields ! 3 = replicate 20 0x35
   \<and> to signedRead = signedAddress
   \<and> recoverPublicKey demoEnv signedReq (Arr (map Buf signedFields)) = Inr signedKey
   \<and> fst (sendRawTransaction demoEnv signedReq) = Inl NotCallable
   \<and> snd (sendRawTransaction demoEnv signedReq) = []"
  by code_simp

section \<open>Decoding what was encoded\<close>

declare rlp_encode.simps [simp del]

text \<open>
  The bound on the depth never cuts a decoding short: what is left after an item is
  shorter than the input, so the length of the input is bound enough, and any larger
  bound gives the same result.
\<close>

lemma decode_item_shorter:
  "decode_item n input = Some (x, remainder) \<Longrightarrow> length remainder < length input"
proof (cases n)
  case 0
  then show "decode_item n input = Some (x, remainder) \<Longrightarrow> ?thesis"
    by simp
next
  case (Suc m)
  then show "decode_item n input = Some (x, remainder) \<Longrightarrow> ?thesis"
    by (cases input)
       (auto simp: Let_def split: if_splits option.splits)
qed

lemma decode_bound_enough:
  "length input \<le> n \<Longrightarrow> n \<le> m \<Longrightarrow>
     decode_item m input = decode_item n input \<and> decode_items m input = decode_items n input"
proof (induction n arbitrary: input m)
  case 0
  then have "input = []"
    by simp
  then show ?case
    by (cases m) simp_all
next
  case (Suc n)
  from Suc.prems(2) obtain m' where m: "m = Suc m'" and m': "n \<le> m'"
    by (cases m) simp_all
  show ?case
  proof (cases input)
    case Nil
    then show ?thesis
      by (simp add: m)
  next
    case (Cons b rest)
    with Suc.prems(1) have rest: "length rest \<le> n"
      by simp
    have inner: "decode_items m' (take len (drop k rest)) = decode_items n (take len (drop k rest))"
      for len k
      using Suc.IH [of "take len (drop k rest)" m'] rest m' by simp
    from inner [of _ 0] have inner0: "decode_items m' (take len rest) = decode_items n (take len rest)"
      for len
      by simp
    have item: "decode_item (Suc m') (b # rest) = decode_item (Suc n) (b # rest)"
      by (simp add: Let_def inner inner0 cong: option.case_cong if_cong)
    have "decode_items (Suc m') (b # rest) = decode_items (Suc n) (b # rest)"
    proof (cases "decode_item (Suc n) (b # rest)")
      case None
      with item show ?thesis
        by simp
    next
      case (Some res)
      obtain x remainder where res: "res = (x, remainder)"
        by (cases res)
      with Some have "length remainder < length (b # rest)"
        using decode_item_shorter by blast
      with rest have "length remainder \<le> n"
        by simp
      then have "decode_items m' remainder = decode_items n remainder"
        using Suc.IH [of remainder m'] m' by simp
      with item Some res show ?thesis
        by simp
    qed
    with item show ?thesis
      by (simp add: m Cons)
  qed
qed

lemma be_bytes_0 [simp]: "be_bytes 0 = []"
  by (simp add: be_bytes.simps)

lemma be_bytes_pos: "0 < n \<Longrightarrow> be_bytes n = be_bytes (n div 256) @ [of_nat (n mod 256)]"
  by (subst be_bytes.simps) simp

lemma be_bytes_nonempty: "0 < n \<Longrightarrow> be_bytes n \<noteq> []"
  by (simp add: be_bytes_pos)

lemma byte_of_nat_eq_0: "n < 256 \<Longrightarrow> (of_nat n :: byte) = 0 \<longleftrightarrow> n = 0"
  by (simp add: word_of_nat_eq_0_iff) (auto dest: dvd_imp_le)

lemma hd_be_bytes: "0 < n \<Longrightarrow> hd (be_bytes n) \<noteq> 0"
proof (induction n rule: be_bytes.induct)
  case (1 n)
  show ?case
  proof (cases "n div 256 = 0")
    case True
    then have "n < 256"
      by (simp add: div_eq_0_iff)
    with "1.prems" show ?thesis
      by (simp add: be_bytes_pos True byte_of_nat_eq_0)
  next
    case False
    then have "hd (be_bytes (n div 256)) \<noteq> 0" and "be_bytes (n div 256) \<noteq> []"
      using "1.IH" "1.prems" by (simp_all add: be_bytes_nonempty)
    with "1.prems" show ?thesis
      by (simp add: be_bytes_pos)
  qed
qed

lemma length_be_bytes: "n < 256 ^ k \<Longrightarrow> length (be_bytes n) \<le> k"
proof (induction k arbitrary: n)
  case 0
  then show ?case by simp
next
  case (Suc k)
  show ?case
  proof (cases "n = 0")
    case True
    then show ?thesis by simp
  next
    case False
    from Suc.prems have "n div 256 < 256 ^ k"
      by (simp add: less_mult_imp_div_less mult.commute)
    then have "length (be_bytes (n div 256)) \<le> k"
      by (rule Suc.IH)
    with False show ?thesis
      by (simp add: be_bytes_pos)
  qed
qed

text \<open>The length bytes of a long item, as the decoder reads them.\<close>

lemma long_length_read:
  assumes "56 \<le> len"
  shows "unat (hd (be_bytes len @ rest)) \<noteq> 0"
    and "nat (be_int (take (length (be_bytes len)) (be_bytes len @ rest))) = len"
proof -
  from assms have pos: "0 < len"
    by simp
  then have ne: "be_bytes len \<noteq> []"
    by (rule be_bytes_nonempty)
  then have "hd (be_bytes len @ rest) = hd (be_bytes len)"
    by simp
  with hd_be_bytes [OF pos] show "unat (hd (be_bytes len @ rest)) \<noteq> 0"
    by (simp add: unat_eq_0)
  show "nat (be_int (take (length (be_bytes len)) (be_bytes len @ rest))) = len"
    by (simp add: be_int_be_bytes)
qed

text \<open>The length prefix for a payload that fits eight length bytes.\<close>

lemma long_prefix_length:
  assumes "56 \<le> len" and "len < 2 ^ 64"
  shows "1 \<le> length (be_bytes len)" and "length (be_bytes len) \<le> 8"
proof -
  from assms(1) have "be_bytes len \<noteq> []"
    by (simp add: be_bytes_nonempty)
  then show "1 \<le> length (be_bytes len)"
    by (cases "be_bytes len") simp_all
  from assms(2) have "len < 256 ^ 8"
    by simp
  then show "length (be_bytes len) \<le> 8"
    by (rule length_be_bytes)
qed

lemma unat_byte_of_nat: "n < 256 \<Longrightarrow> unat (of_nat n :: byte) = n"
  by (simp add: unat_of_nat)

text \<open>The branches of the decoder, by the first byte.\<close>

lemma decode_item_long_string:
  assumes "unat first = 183 + ll" and "1 \<le> ll" and "ll \<le> 8"
    and "unat (hd input) \<noteq> 0"
    and "nat (be_int (take ll input)) = len"
    and "56 \<le> len"
    and "ll + len \<le> length input"
  shows "decode_item (Suc n) (first # input)
           = Some (Buf (take len (drop ll input)), drop len (drop ll input))"
  using assms by (simp add: Let_def)

lemma decode_item_short_list:
  assumes "unat first = 192 + len" and "len < 56"
    and "decode_items n (take len rest) = Some xs"
  shows "decode_item (Suc n) (first # rest) = Some (Arr xs, drop len rest)"
  using assms by (simp add: Let_def)

lemma decode_item_long_list:
  assumes "unat first = 247 + ll" and "1 \<le> ll" and "ll \<le> 8"
    and "unat (hd input) \<noteq> 0"
    and "nat (be_int (take ll input)) = len"
    and "56 \<le> len"
    and "ll + len \<le> length input"
    and "decode_items n (take len (drop ll input)) = Some xs"
  shows "decode_item (Suc n) (first # input) = Some (Arr xs, drop len (drop ll input))"
proof -
  from assms(6,7) have "input \<noteq> []"
    by auto
  with assms show ?thesis
    by (simp add: Let_def)
qed

lemma decode_item_long_list_cut:
  assumes "unat first = 247 + ll" and "1 \<le> ll" and "ll \<le> 8"
    and "length input < ll + nat (be_int (take ll input))"
  shows "decode_item (Suc n) (first # input) = None"
  using assms by (simp add: Let_def)

lemma decode_item_Buf:
  assumes "length b < 2 ^ 64"
  shows "decode_item (Suc n) (rlp_encode (Buf b) @ rest) = Some (Buf b, rest)"
proof (cases "length b = 1 \<and> unat (hd b) < 128")
  case True
  then obtain x where b: "b = [x]"
    by (cases b) simp_all
  with True show ?thesis
    by (simp add: rlp_encode.simps)
next
  case False
  note not_single = this
  show ?thesis
  proof (cases "length b < 56")
    case True
    let ?first = "of_nat (length b + 128) :: byte"
    have first: "unat ?first = length b + 128"
      using True unat_byte_of_nat [of "length b + 128"] by simp
    have single: "\<not> (length b = 1 \<and> unat (hd (b @ rest)) < 128)"
      using not_single by (cases b) auto
    have "rlp_encode (Buf b) @ rest = ?first # (b @ rest)"
      using not_single True by (auto simp: rlp_encode.simps encodeLength_def)
    then show ?thesis
      using first True single by (auto simp: Let_def)
  next
    case False
    then have long: "56 \<le> length b"
      by simp
    let ?ll = "length (be_bytes (length b))"
    let ?first = "of_nat (183 + ?ll) :: byte"
    let ?input = "be_bytes (length b) @ b @ rest"
    from long_prefix_length [OF long assms] have ll: "1 \<le> ?ll" "?ll \<le> 8" .
    then have first: "unat ?first = 183 + ?ll"
      using unat_byte_of_nat [of "183 + ?ll"] by simp
    have enc: "rlp_encode (Buf b) @ rest = ?first # ?input"
      using not_single False by (auto simp: rlp_encode.simps encodeLength_def)
    have fits: "?ll + length b \<le> length ?input"
      by simp
    have "decode_item (Suc n) (?first # ?input)
            = Some (Buf (take (length b) (drop ?ll ?input)), drop (length b) (drop ?ll ?input))"
      using first ll long_length_read [OF long, of "b @ rest"] long fits
      by (rule decode_item_long_string)
    then show ?thesis
      unfolding enc by simp
  qed
qed

lemma rlp_encode_nonempty: "rlp_encode x \<noteq> []"
  by (cases x) (auto simp: rlp_encode.simps encodeLength_def Let_def)

lemma decode_items_step:
  assumes "input \<noteq> []"
  shows "decode_items (Suc n) input =
           (case decode_item (Suc n) input of
              None \<Rightarrow> None
            | Some (x, remainder) \<Rightarrow>
                (case decode_items n remainder of
                   None \<Rightarrow> None
                 | Some xs \<Rightarrow> Some (x # xs)))"
  using assms by (cases input) simp_all

lemma decode_items_flat:
  assumes "\<forall>f \<in> set fs. length f < 2 ^ 64"
    and "length (concat (map (\<lambda>f. rlp_encode (Buf f)) fs)) \<le> n"
  shows "decode_items n (concat (map (\<lambda>f. rlp_encode (Buf f)) fs)) = Some (map Buf fs)"
  using assms
proof (induction fs arbitrary: n)
  case Nil
  then show ?case by simp
next
  case (Cons f fs)
  let ?rest = "concat (map (\<lambda>f. rlp_encode (Buf f)) fs)"
  have ne: "rlp_encode (Buf f) \<noteq> []"
    by (rule rlp_encode_nonempty)
  then have "1 \<le> length (rlp_encode (Buf f))"
    by (cases "rlp_encode (Buf f)") simp_all
  with Cons.prems(2) obtain m where n: "n = Suc m" and m: "length ?rest \<le> m"
    by (cases n) auto
  have f: "length f < 2 ^ 64"
    using Cons.prems(1) by simp
  have rest: "decode_items m ?rest = Some (map Buf fs)"
    using Cons.IH [of m] Cons.prems(1) m by simp
  have first: "decode_item (Suc m) (rlp_encode (Buf f) @ ?rest) = Some (Buf f, ?rest)"
    using decode_item_Buf [OF f] .
  have "decode_items (Suc m) (rlp_encode (Buf f) @ ?rest) = Some (Buf f # map Buf fs)"
    using ne by (subst decode_items_step) (simp_all add: first rest)
  then show ?case
    by (simp add: n)
qed

lemma length_le_rlp_encode_Buf: "length b \<le> length (rlp_encode (Buf b))"
  by (simp add: rlp_encode.simps)

lemma length_le_concat: "x \<in> set xs \<Longrightarrow> length x \<le> length (concat xs)"
  by (induction xs) auto

text \<open>
  The encoding of a list of byte strings: the prefix and the encoded fields. A short
  prefix is one byte; a long prefix is the byte \<open>f7\<close> plus the count of length bytes,
  and the length bytes.
\<close>

lemma encodeTx_parts:
  "encodeTx fs
     = encodeLength (length (concat (map (\<lambda>f. rlp_encode (Buf f)) fs))) 192
       @ concat (map (\<lambda>f. rlp_encode (Buf f)) fs)"
  by (simp add: encodeTx_def rlp_encode.simps Let_def comp_def)

lemma encodeTx_fields_small:
  assumes "length (encodeTx fs) < 2 ^ 64"
  shows "length (concat (map (\<lambda>f. rlp_encode (Buf f)) fs)) < 2 ^ 64"
    and "\<forall>f \<in> set fs. length f < 2 ^ 64"
proof -
  let ?p = "concat (map (\<lambda>f. rlp_encode (Buf f)) fs)"
  show plen: "length ?p < 2 ^ 64"
    using assms unfolding encodeTx_parts by simp
  show "\<forall>f \<in> set fs. length f < 2 ^ 64"
  proof
    fix f assume "f \<in> set fs"
    then have "rlp_encode (Buf f) \<in> set (map (\<lambda>f. rlp_encode (Buf f)) fs)"
      by simp
    then have "length (rlp_encode (Buf f)) \<le> length ?p"
      by (rule length_le_concat)
    with length_le_rlp_encode_Buf [of f] plen show "length f < 2 ^ 64"
      by linarith
  qed
qed

lemma encodeTx_short:
  assumes "length (concat (map (\<lambda>f. rlp_encode (Buf f)) fs)) < 56"
  shows "encodeTx fs
           = of_nat (length (concat (map (\<lambda>f. rlp_encode (Buf f)) fs)) + 192)
             # concat (map (\<lambda>f. rlp_encode (Buf f)) fs)"
  unfolding encodeTx_parts using assms by (simp add: encodeLength_def)

lemma encodeTx_long:
  assumes "\<not> length (concat (map (\<lambda>f. rlp_encode (Buf f)) fs)) < 56"
  shows "encodeTx fs
           = of_nat (247 + length (be_bytes (length (concat (map (\<lambda>f. rlp_encode (Buf f)) fs)))))
             # be_bytes (length (concat (map (\<lambda>f. rlp_encode (Buf f)) fs)))
             @ concat (map (\<lambda>f. rlp_encode (Buf f)) fs)"
  unfolding encodeTx_parts using assms by (simp add: encodeLength_def)

text \<open>
  Decoding the encoding of a list of byte strings gives the list back, and leaves what
  follows the encoding.
\<close>

lemma decode_item_flat:
  assumes small: "length (encodeTx fs) < 2 ^ 64"
    and bound: "length (encodeTx fs) \<le> n"
  shows "decode_item n (encodeTx fs @ extra) = Some (Arr (map Buf fs), extra)"
proof -
  let ?p = "concat (map (\<lambda>f. rlp_encode (Buf f)) fs)"
  let ?len = "length ?p"
  note plen = encodeTx_fields_small(1) [OF small]
  note each = encodeTx_fields_small(2) [OF small]
  show ?thesis
  proof (cases "?len < 56")
    case True
    let ?first = "of_nat (?len + 192) :: byte"
    have first: "unat ?first = 192 + ?len"
      using True unat_byte_of_nat [of "?len + 192"] by simp
    note input = encodeTx_short [OF True]
    from bound obtain m where n: "n = Suc m" and m: "?len \<le> m"
      unfolding input by (cases n) auto
    have items: "decode_items m (take ?len (?p @ extra)) = Some (map Buf fs)"
      using decode_items_flat [OF each m] by simp
    have "decode_item (Suc m) (?first # (?p @ extra))
            = Some (Arr (map Buf fs), drop ?len (?p @ extra))"
      using first True items by (rule decode_item_short_list)
    then show ?thesis
      unfolding input n by simp
  next
    case False
    then have long: "56 \<le> ?len"
      by simp
    let ?ll = "length (be_bytes ?len)"
    let ?first = "of_nat (247 + ?ll) :: byte"
    let ?input = "be_bytes ?len @ ?p @ extra"
    from long_prefix_length [OF long plen] have ll: "1 \<le> ?ll" "?ll \<le> 8" .
    then have first: "unat ?first = 247 + ?ll"
      using unat_byte_of_nat [of "247 + ?ll"] by simp
    note input = encodeTx_long [OF False]
    from bound obtain m where n: "n = Suc m" and m: "?len \<le> m"
      unfolding input by (cases n) auto
    have fits: "?ll + ?len \<le> length ?input"
      by simp
    have items: "decode_items m (take ?len (drop ?ll ?input)) = Some (map Buf fs)"
      using decode_items_flat [OF each m] by simp
    have "decode_item (Suc m) (?first # ?input)
            = Some (Arr (map Buf fs), drop ?len (drop ?ll ?input))"
      using first ll long_length_read [OF long, of "?p @ extra"] long fits items
      by (rule decode_item_long_list)
    then show ?thesis
      unfolding input n by simp
  qed
qed



text \<open>Bytes after the encoding are refused, and so is a long encoding that is cut short.\<close>

lemma rlp_decode_remainder:
  assumes "length (encodeTx fs) < 2 ^ 64" and "extra \<noteq> []"
  shows "rlp_decode (encodeTx fs @ extra) = Inl RlpError"
  using decode_item_flat [OF assms(1), of "length (encodeTx fs @ extra)" extra] assms(2)
  by (simp add: rlp_decode_def)

lemma encodeTx_is_long:
  assumes "56 < length (encodeTx fs)"
  shows "\<not> length (concat (map (\<lambda>f. rlp_encode (Buf f)) fs)) < 56"
proof
  assume short: "length (concat (map (\<lambda>f. rlp_encode (Buf f)) fs)) < 56"
  have "length (encodeTx fs) = Suc (length (concat (map (\<lambda>f. rlp_encode (Buf f)) fs)))"
    by (simp add: encodeTx_short [OF short])
  with assms short show False
    by simp
qed

lemma rlp_decode_cut:
  assumes small: "length (encodeTx fs) < 2 ^ 64"
    and long: "56 < length (encodeTx fs)"
    and k: "0 < k" "k < length (encodeTx fs)"
  shows "rlp_decode (take k (encodeTx fs)) = Inl RlpError"
proof -
  let ?p = "concat (map (\<lambda>f. rlp_encode (Buf f)) fs)"
  let ?len = "length ?p"
  let ?ll = "length (be_bytes ?len)"
  let ?first = "of_nat (247 + ?ll) :: byte"
  define input where "input = take (k - 1) (be_bytes ?len @ ?p)"
  note not_short = encodeTx_is_long [OF long]
  then have len56: "56 \<le> ?len"
    by simp
  note plen = encodeTx_fields_small(1) [OF small]
  from long_prefix_length [OF len56 plen] have ll: "1 \<le> ?ll" "?ll \<le> 8" .
  then have first: "unat ?first = 247 + ?ll"
    using unat_byte_of_nat [of "247 + ?ll"] by simp
  note enc = encodeTx_long [OF not_short]
  from k(1) obtain j where kj: "k = Suc j"
    by (cases k) simp_all
  have cut: "take k (encodeTx fs) = ?first # input"
    unfolding enc kj input_def by simp
  have "length (encodeTx fs) = Suc (?ll + ?len)"
    by (simp add: enc)
  with k have klen: "k - 1 < ?ll + ?len"
    by simp
  then have linput: "length input = k - 1"
    by (simp add: input_def)
  have "length input < ?ll + nat (be_int (take ?ll input))"
  proof (cases "?ll \<le> k - 1")
    case True
    then have "take ?ll input = be_bytes ?len"
      by (simp add: input_def min_def)
    then have "nat (be_int (take ?ll input)) = ?len"
      by (simp add: be_int_be_bytes)
    with klen linput show ?thesis
      by simp
  next
    case False
    with linput show ?thesis
      by simp
  qed
  with first ll have none: "decode_item (Suc j) (?first # input) = None"
    by (rule decode_item_long_list_cut)
  have "length (?first # input) = Suc j"
    using linput kj by simp
  with none show ?thesis
    unfolding cut rlp_decode_def by (simp del: decode_item.simps)
qed


section \<open>The re-signing payload\<close>




section \<open>Fields that are missing, and fields beyond the ninth\<close>

lemma field_take9: "i < 9 \<Longrightarrow> field (Arr (take 9 xs)) i = field (Arr xs) i"
  by (auto simp: field_def)

lemma item_take9: "i < 9 \<Longrightarrow> item (Arr (take 9 xs)) i = item (Arr xs) i"
  by (auto simp: item_def)

lemma slice6_take9: "slice6 (Arr (take 9 xs)) = slice6 (Arr xs)"
  by (simp add: slice6_def min_def)

lemma readFields_take9:
  assumes "rawTransactionRequest.chainID req' = rawTransactionRequest.chainID req"
  shows "readFields E req' (Arr (take 9 xs)) = readFields E req (Arr xs)"
  using assms by (simp add: readFields_def field_take9 item_take9)

lemma recoverPublicKey_take9:
  assumes "rawTransactionRequest.chainID req' = rawTransactionRequest.chainID req"
  shows "recoverPublicKey E req' (Arr (take 9 xs)) = recoverPublicKey E req (Arr xs)"
  using assms
  by (simp add: recoverPublicKey_def raw_def rawTx_def slice6_take9 field_take9 item_take9)

lemma recoverIdentity_take9:
  assumes "rawTransactionRequest.chainID req' = rawTransactionRequest.chainID req"
  shows "recoverIdentity E req' (Arr (take 9 xs)) v' = recoverIdentity E req (Arr xs) v'"
  by (simp add: recoverIdentity_def recoverPublicKey_take9 [OF assms] item_take9)

lemma sendRawTransaction_take9:
  assumes "rlp_decode (rawTransactionRequest.data req) = Inr (Arr xs)"
    and "rlp_decode (rawTransactionRequest.data req') = Inr (Arr (take 9 xs))"
    and "rawTransactionRequest.chainID req' = rawTransactionRequest.chainID req"
  shows "sendRawTransaction E req' = sendRawTransaction E req"
  using assms
  by (simp add: sendRawTransaction_def readFields_take9 [OF assms(3)]
      recoverIdentity_take9 [OF assms(3)] cong: sum.case_cong)

lemma recoverPublicKey_short:
  assumes "length fs < 9"
  shows "\<exists>e. recoverPublicKey E req (Arr (map Buf fs)) = Inl e"
proof -
  have "ecrecover E h vv r None c = Inl RecoverError" for h vv r c
    by (simp add: ecrecover_def split: option.splits rlp_item.splits)
  moreover have "ecrecover E h vv None s c = Inl RecoverError" for h vv s c
    by (simp add: ecrecover_def)
  ultimately show ?thesis
    using assms
    by (simp add: recoverPublicKey_def Let_def field_flat item_flat bind_def
        split: sum.splits)
qed

section \<open>Malformed input\<close>

text \<open>
  Claim C8, as the code has it. Two kinds of input are refused by \<open>rlp.decode\<close>, and the
  call throws the error of the decoder without any call to the RPC client: the encoding
  of a list of byte strings followed by further bytes, and such an encoding of more than
  56 bytes of which only the first \<open>k\<close> bytes are there. The decoder does not count the
  fields. A tuple of fewer than nine byte strings is decoded, and the call throws later,
  where a missing field is read or in the recovery of the key. The fields after the
  ninth are never read: the tuple is read, and the key recovered, as for its first nine
  fields.
\<close>

theorem malformed_input:
  "(length (encodeTx fs) < 2 ^ 64 \<and> extra \<noteq> []
      \<and> rawTransactionRequest.data req = encodeTx fs @ extra
      \<longrightarrow> sendRawTransaction E req = (Inl RlpError, []))
   \<and> (length (encodeTx fs) < 2 ^ 64 \<and> 56 < length (encodeTx fs)
       \<and> 0 < k \<and> k < length (encodeTx fs)
       \<and> rawTransactionRequest.data req = take k (encodeTx fs)
      \<longrightarrow> sendRawTransaction E req = (Inl RlpError, []))
   \<and> (rlp_decode (rawTransactionRequest.data req) = Inr (Arr (map Buf fs)) \<and> length fs < 9
      \<longrightarrow> (\<exists>e. (readFields E req (Arr (map Buf fs)) = Inl e
                 \<or> recoverPublicKey E req (Arr (map Buf fs)) = Inl e)
                \<and> sendRawTransaction E req = (Inl e, [])))
   \<and> (rlp_decode (rawTransactionRequest.data req) = Inr (Arr xs)
       \<and> rlp_decode (rawTransactionRequest.data req') = Inr (Arr (take 9 xs))
       \<and> rawTransactionRequest.chainID req' = rawTransactionRequest.chainID req
      \<longrightarrow> readFields E req' (Arr (take 9 xs)) = readFields E req (Arr xs)
          \<and> recoverPublicKey E req' (Arr (take 9 xs)) = recoverPublicKey E req (Arr xs)
          \<and> sendRawTransaction E req' = sendRawTransaction E req)"
proof (intro conjI impI)
  assume a: "length (encodeTx fs) < 2 ^ 64 \<and> extra \<noteq> []
      \<and> rawTransactionRequest.data req = encodeTx fs @ extra"
  then have "rlp_decode (rawTransactionRequest.data req) = Inl RlpError"
    using rlp_decode_remainder [of fs extra] by simp
  then show "sendRawTransaction E req = (Inl RlpError, [])"
    by (simp add: sendRawTransaction_def)
next
  assume a: "length (encodeTx fs) < 2 ^ 64 \<and> 56 < length (encodeTx fs)
       \<and> 0 < k \<and> k < length (encodeTx fs)
       \<and> rawTransactionRequest.data req = take k (encodeTx fs)"
  then have "rlp_decode (rawTransactionRequest.data req) = Inl RlpError"
    using rlp_decode_cut [of fs k] by simp
  then show "sendRawTransaction E req = (Inl RlpError, [])"
    by (simp add: sendRawTransaction_def)
next
  assume a: "rlp_decode (rawTransactionRequest.data req) = Inr (Arr (map Buf fs))
             \<and> length fs < 9"
  show "\<exists>e. (readFields E req (Arr (map Buf fs)) = Inl e
             \<or> recoverPublicKey E req (Arr (map Buf fs)) = Inl e)
            \<and> sendRawTransaction E req = (Inl e, [])"
  proof (cases "readFields E req (Arr (map Buf fs))")
    case (Inl e)
    with a show ?thesis
      by (simp add: sendRawTransaction_def)
  next
    case (Inr f)
    from a recoverPublicKey_short obtain e
      where e: "recoverPublicKey E req (Arr (map Buf fs)) = Inl e"
      by blast
    from a have dec: "rlp_decode (rawTransactionRequest.data req) = Inr (Arr (map Buf fs))"
      by simp
    from sendRawTransaction_recover_fails [OF dec Inr e] e show ?thesis
      by blast
  qed
next
  assume a: "rlp_decode (rawTransactionRequest.data req) = Inr (Arr xs)
       \<and> rlp_decode (rawTransactionRequest.data req') = Inr (Arr (take 9 xs))
       \<and> rawTransactionRequest.chainID req' = rawTransactionRequest.chainID req"
  then show "readFields E req' (Arr (take 9 xs)) = readFields E req (Arr xs)"
    using readFields_take9 by blast
  from a show "recoverPublicKey E req' (Arr (take 9 xs)) = recoverPublicKey E req (Arr xs)"
    using recoverPublicKey_take9 by blast
  from a show "sendRawTransaction E req' = sendRawTransaction E req"
    using sendRawTransaction_take9 by blast
qed

theorem malformed_input_witness:
  "length (encodeTx signedFields) < 2 ^ 64
   \<and> rawTransactionRequest.data remainderReq = encodeTx signedFields @ [0x00]
   \<and> sendRawTransaction demoEnv remainderReq = (Inl RlpError, [])
   \<and> 56 < length (encodeTx signedFields)
   \<and> (111::nat) < length (encodeTx signedFields)
   \<and> rawTransactionRequest.data cutReq = take 111 (encodeTx signedFields)
   \<and> sendRawTransaction demoEnv cutReq = (Inl RlpError, [])
   \<and> rlp_decode (rawTransactionRequest.data eightFieldReq)
       = Inr (Arr (map Buf (take 8 signedFields)))
   \<and> length (take 8 signedFields) < 9
   \<and> recoverPublicKey demoEnv eightFieldReq (Arr (map Buf (take 8 signedFields)))
       = Inl RecoverError
   \<and> sendRawTransaction demoEnv eightFieldReq = (Inl RecoverError, [])
   \<and> rlp_decode (rawTransactionRequest.data tenFieldReq)
       = Inr (Arr (map Buf (signedFields @ [[0x07]])))
   \<and> rlp_decode (rawTransactionRequest.data signedReq)
       = Inr (Arr (take 9 (map Buf (signedFields @ [[0x07]]))))
   \<and> rawTransactionRequest.chainID signedReq = rawTransactionRequest.chainID tenFieldReq
   \<and> recoverPublicKey demoEnv signedReq (Arr (take 9 (map Buf (signedFields @ [[0x07]]))))
       = recoverPublicKey demoEnv tenFieldReq (Arr (map Buf (signedFields @ [[0x07]])))
   \<and> sendRawTransaction demoEnv signedReq = sendRawTransaction demoEnv tenFieldReq"
proof -
  have len: "length (encodeTx signedFields) = 112"
    by code_simp
  then have small: "length (encodeTx signedFields) < 2 ^ 64"
    and long: "56 < length (encodeTx signedFields)"
    and k: "(0::nat) < 111" "(111::nat) < length (encodeTx signedFields)"
    by simp_all
  have extra: "[0x00 :: byte] \<noteq> []"
    by simp
  have d1: "rawTransactionRequest.data remainderReq = encodeTx signedFields @ [0x00]"
    by (simp add: remainderReq_def)
  have d2: "rawTransactionRequest.data cutReq = take 111 (encodeTx signedFields)"
    by code_simp
  have h3: "rlp_decode (rawTransactionRequest.data eightFieldReq)
              = Inr (Arr (map Buf (take 8 signedFields)))"
    by code_simp
  have l3: "length (take 8 signedFields) < 9"
    by simp
  have rd3: "case readFields demoEnv eightFieldReq (Arr (map Buf (take 8 signedFields))) of
               Inl e \<Rightarrow> False | Inr f \<Rightarrow> True"
    by code_simp
  have rk3: "recoverPublicKey demoEnv eightFieldReq (Arr (map Buf (take 8 signedFields)))
               = Inl RecoverError"
    by code_simp
  have h4: "rlp_decode (rawTransactionRequest.data tenFieldReq)
              = Inr (Arr (map Buf (signedFields @ [[0x07]])))"
    by code_simp
  have d4: "rlp_decode (rawTransactionRequest.data signedReq)
              = Inr (Arr (take 9 (map Buf (signedFields @ [[0x07]]))))"
    by code_simp
  have c4: "rawTransactionRequest.chainID signedReq = rawTransactionRequest.chainID tenFieldReq"
    by (simp add: signedReq_def tenFieldReq_def)
  have r1: "sendRawTransaction demoEnv remainderReq = (Inl RlpError, [])"
    using malformed_input [of signedFields "[0x00]" remainderReq demoEnv] small extra d1
    by blast
  have r2: "sendRawTransaction demoEnv cutReq = (Inl RlpError, [])"
    using malformed_input [of signedFields _ cutReq demoEnv 111] small long k d2
    by blast
  have "\<exists>e. (readFields demoEnv eightFieldReq (Arr (map Buf (take 8 signedFields))) = Inl e
             \<or> recoverPublicKey demoEnv eightFieldReq (Arr (map Buf (take 8 signedFields)))
                 = Inl e)
            \<and> sendRawTransaction demoEnv eightFieldReq = (Inl e, [])"
    using malformed_input [of "take 8 signedFields" _ eightFieldReq demoEnv] h3 l3
    by blast
  then obtain e
    where "readFields demoEnv eightFieldReq (Arr (map Buf (take 8 signedFields))) = Inl e
           \<or> recoverPublicKey demoEnv eightFieldReq (Arr (map Buf (take 8 signedFields)))
               = Inl e"
      and send: "sendRawTransaction demoEnv eightFieldReq = (Inl e, [])"
    by blast
  with rd3 rk3 have "e = RecoverError"
    by (auto split: sum.splits)
  with send have r3: "sendRawTransaction demoEnv eightFieldReq = (Inl RecoverError, [])"
    by simp
  have r4: "recoverPublicKey demoEnv signedReq (Arr (take 9 (map Buf (signedFields @ [[0x07]]))))
              = recoverPublicKey demoEnv tenFieldReq (Arr (map Buf (signedFields @ [[0x07]])))
            \<and> sendRawTransaction demoEnv signedReq = sendRawTransaction demoEnv tenFieldReq"
    using malformed_input [of _ _ tenFieldReq demoEnv _ "map Buf (signedFields @ [[0x07]])"
        signedReq] h4 d4 c4
    by blast
  from small d1 r1 long k(2) d2 r2 h3 l3 rk3 r3 h4 d4 c4 r4 show ?thesis
    by blast
qed

text \<open>
  The claim as stated has every input that is not the encoding of nine whole fields
  refused by the decoder. Three inputs that the decoder accepts:
  \<^item> the signed transfer with a tenth field decodes to ten fields, and the key of the
    signer is recovered as for the nine;
  \<^item> the signed transfer whose field \<open>s\<close> announces 32 bytes and has 31 decodes to nine
    fields with an \<open>s\<close> of 31 bytes, and the recovery finds a key, which is not that of
    the signer;
  \<^item> the signed transfer without its ninth field decodes to eight fields, and the error
    of the call is that of \<open>ecrecover\<close>.
\<close>

theorem lax_decoding_accepted:
  "rlp_decode (rawTransactionRequest.data tenFieldReq)
     = Inr (Arr (map Buf (signedFields @ [[0x07]])))
   \<and> recoverPublicKey demoEnv tenFieldReq (Arr (map Buf (signedFields @ [[0x07]])))
       = Inr signedKey
   \<and> sendRawTransaction demoEnv tenFieldReq = (Inl NotCallable, [])
   \<and> length signedS = 32
   \<and> rawTransactionRequest.data shortSReq
       = (butlast (encodeTx signedFields))[1 := 0x6d]
   \<and> rlp_decode (rawTransactionRequest.data shortSReq)
       = Inr (Arr (map Buf (signedFields[8 := butlast signedS])))
   \<and> recoverPublicKey demoEnv shortSReq (Arr (map Buf (signedFields[8 := butlast signedS])))
       = Inr shortSKey
   \<and> shortSKey \<noteq> signedKey
   \<and> sendRawTransaction demoEnv shortSReq = (Inl NotCallable, [])
   \<and> rlp_decode (rawTransactionRequest.data eightFieldReq)
       = Inr (Arr (map Buf (take 8 signedFields)))
   \<and> sendRawTransaction demoEnv eightFieldReq = (Inl RecoverError, [])"
  by code_simp

end
